theory Spec2Isabelle
  imports Complex_Main "HOL-Library.Word"
begin

unbundle bit_operations_syntax

section \<open>Data model\<close>

text \<open>
  The sonification service turns an image into a WAV file and back. Bytes are the
  elements of a \<open>Uint8Array\<close>; every other JavaScript number that occurs (samples,
  lengths, offsets, header fields) is an integer and is modelled as \<open>int\<close> or
  \<open>nat\<close>. The two quotients the service computes (\<open>duration\<close>, \<open>compressionRatio\<close>)
  are modelled by their exact value, with the two special results of a division by
  zero kept apart.
\<close>

type_synonym u8 = "8 word"

text \<open>
  The failures of a conversion. The source throws \<open>Error\<close> objects that differ by their
  message; the constructors carry the names the specification gives them:
  \<^item> \<open>MalformedContainer\<close>: "Invalid WAV file: missing RIFF header";
  \<^item> \<open>DimensionOutOfRange\<close>: "Invalid image dimensions: WxH";
  \<^item> \<open>SizeMismatch\<close>: "Size mismatch: expected N, got M";
  \<^item> \<open>DecodeFailure\<close>: a rejection by the browser's image decoder or by its
    decompression stream;
  \<^item> \<open>RangeError\<close>: the JavaScript runtime's own \<open>RangeError\<close> (a \<open>DataView\<close> read
    past the end, a typed array of negative or misaligned length);
  \<^item> \<open>InvalidStateError\<close>, \<open>IndexSizeError\<close>: the \<open>DOMException\<close>s of
    \<open>new ImageData(data, sw, sh)\<close>;
  \<^item> \<open>MissingPayloadChunk\<close>: named by the specification; no \<open>throw\<close> of the source
    corresponds to it.
\<close>

datatype error =
    MalformedContainer
  | MissingPayloadChunk
  | DimensionOutOfRange
  | SizeMismatch
  | DecodeFailure
  | RangeError
  | InvalidStateError
  | IndexSizeError

datatype jsnum = Num rat | PosInfinity | NotANumber

datatype QualityMode = full | compressed

record SonificationOptions =
  quality :: QualityMode
  jpegQuality :: "rat option"

record SonificationResult =
  audioBlob :: "u8 list"
  sampleRate :: int
  duration :: jsnum
  compressionRatio :: jsnum

text \<open>
  The blob of a reconstruction is either the PNG that \<open>canvas.toBlob\<close> produces,
  represented by the pixel bytes that were put on the canvas, or the JPEG byte stream
  taken from the samples.
\<close>

datatype blob = Png "u8 list" | Jpeg "u8 list"

record ReconstructionResult =
  imageBlob :: blob
  width :: int
  height :: int

record RawPixelData =
  raw_width :: int
  raw_height :: int
  raw_data :: "u8 list"

text \<open>
  What the service asks of the browser. \<open>'f\<close> is the browser's \<open>File\<close>. A rejected
  promise is \<open>None\<close>. \<open>compressData\<close> and \<open>decompressData\<close> pipe through
  \<open>CompressionStream("deflate")\<close> and \<open>DecompressionStream("deflate")\<close>;
  \<open>imageToJpegBlob\<close>, \<open>extractRawPixelData\<close> and \<open>getImageDimensions\<close> go through
  \<open>Image\<close> and a canvas.
\<close>

record 'f browser =
  file_size :: "'f \<Rightarrow> nat"
  imageToJpegBlob :: "'f \<Rightarrow> rat \<Rightarrow> u8 list option"
  extractRawPixelData :: "'f \<Rightarrow> RawPixelData option"
  compressData :: "u8 list \<Rightarrow> u8 list"
  decompressData :: "u8 list \<Rightarrow> u8 list option"
  getImageDimensions :: "u8 list \<Rightarrow> (int \<times> int) option"

definition SAMPLE_RATE :: int where
  "SAMPLE_RATE = 44100"

definition BITS_PER_SAMPLE :: int where
  "BITS_PER_SAMPLE = 16"

definition NUM_CHANNELS :: int where
  "NUM_CHANNELS = 1"

definition MAGIC_FULL :: int where
  "MAGIC_FULL = 0x46554C4C"

definition MAGIC_JPEG :: int where
  "MAGIC_JPEG = 0x4A504547"

section \<open>JavaScript numbers\<close>

text \<open>\<open>a / b\<close> on two non-negative integers.\<close>

definition js_div :: "nat \<Rightarrow> nat \<Rightarrow> jsnum" where
  "js_div a b =
     (if b = 0 then (if a = 0 then NotANumber else PosInfinity)
      else Num (of_nat a / of_nat b))"

text \<open>\<open>x > 1\<close>.\<close>

fun js_gt1 :: "jsnum \<Rightarrow> bool" where
  "js_gt1 (Num q) = (1 < q)"
| "js_gt1 PosInfinity = True"
| "js_gt1 NotANumber = False"

text \<open>Truthiness of a number: \<open>0\<close> and \<open>NaN\<close> are falsy.\<close>

fun js_truthy :: "jsnum \<Rightarrow> bool" where
  "js_truthy (Num q) = (q \<noteq> 0)"
| "js_truthy PosInfinity = True"
| "js_truthy NotANumber = False"

text \<open>\<open>Math.round\<close>: the nearest integer, a tie going towards plus infinity.\<close>

definition Math_round :: "rat \<Rightarrow> int" where
  "Math_round x = \<lfloor>x + 1 / 2\<rfloor>"

section \<open>Integers as little-endian bytes\<close>

text \<open>
  \<open>bytes[k] = (v >> 8k) & 0xff\<close>, stored in a \<open>Uint8Array\<close>. The bitwise operators work
  on the low 32 bits of \<open>v\<close>; the four bytes taken are the same on \<open>v\<close> itself.
\<close>

definition int32ToBytes :: "int \<Rightarrow> u8 list" where
  "int32ToBytes v =
     [word_of_int (v AND 0xff),
      word_of_int (drop_bit 8 v AND 0xff),
      word_of_int (drop_bit 16 v AND 0xff),
      word_of_int (drop_bit 24 v AND 0xff)]"

definition int16ToBytes :: "int \<Rightarrow> u8 list" where
  "int16ToBytes v =
     [word_of_int (v AND 0xff),
      word_of_int (drop_bit 8 v AND 0xff)]"

text \<open>
  \<open>bytes[i]\<close> as an operand of \<open>|\<close> and \<open><<\<close>: an index past the end reads
  \<open>undefined\<close>, which the bitwise operators take as 0.
\<close>

definition byteAt :: "u8 list \<Rightarrow> nat \<Rightarrow> int" where
  "byteAt bytes i = (if i < length bytes then uint (bytes ! i) else 0)"

text \<open>The final \<open>>>> 0\<close> reads the 32 bits as unsigned.\<close>

definition bytesToInt32 :: "u8 list \<Rightarrow> nat \<Rightarrow> int" where
  "bytesToInt32 bytes offset =
     take_bit 32
       (byteAt bytes offset
        OR push_bit 8 (byteAt bytes (offset + 1))
        OR push_bit 16 (byteAt bytes (offset + 2))
        OR push_bit 24 (byteAt bytes (offset + 3)))"

section \<open>The WAV container\<close>

definition tag_RIFF :: "u8 list" where
  "tag_RIFF = [0x52, 0x49, 0x46, 0x46]"

definition tag_WAVE :: "u8 list" where
  "tag_WAVE = [0x57, 0x41, 0x56, 0x45]"

definition tag_fmt :: "u8 list" where
  "tag_fmt = [0x66, 0x6d, 0x74, 0x20]"

definition tag_data :: "u8 list" where
  "tag_data = [0x64, 0x61, 0x74, 0x61]"

text \<open>
  \<open>createWavHeader\<close> fills a 44-byte array by \<open>header.set(part, position)\<close>; the parts
  are adjacent and cover the array, so the header is their concatenation.
\<close>

definition createWavHeader :: "int \<Rightarrow> u8 list" where
  "createWavHeader dataSize =
     (let byteRate = SAMPLE_RATE * NUM_CHANNELS * (BITS_PER_SAMPLE div 8);
          blockAlign = NUM_CHANNELS * (BITS_PER_SAMPLE div 8)
      in tag_RIFF
         @ int32ToBytes (36 + dataSize)
         @ tag_WAVE
         @ tag_fmt
         @ int32ToBytes 16
         @ int16ToBytes 1
         @ int16ToBytes NUM_CHANNELS
         @ int32ToBytes SAMPLE_RATE
         @ int32ToBytes byteRate
         @ int16ToBytes blockAlign
         @ int16ToBytes BITS_PER_SAMPLE
         @ tag_data
         @ int32ToBytes dataSize)"

definition byteToSample :: "int \<Rightarrow> int" where
  "byteToSample byte = (byte - 128) * 256"

definition sampleToByte :: "int \<Rightarrow> int" where
  "sampleToByte sample =
     (let byte = Math_round (of_int sample / 256) + 128
      in max 0 (min 255 byte))"

text \<open>
  The bytes of an \<open>Int16Array\<close>'s buffer: each element is stored in 16 bits, low byte
  first.
\<close>

definition int16ArrayBuffer :: "int list \<Rightarrow> u8 list" where
  "int16ArrayBuffer audioData =
     concat (map (\<lambda>s. [word_of_int s, word_of_int (drop_bit 8 s)]) audioData)"

definition bytesToWav :: "u8 list \<Rightarrow> u8 list \<Rightarrow> u8 list" where
  "bytesToWav data headerBytes =
     (let totalSamples = length headerBytes + length data;
          audioDataSize = int totalSamples * 2;
          audioData = map (\<lambda>b. byteToSample (uint b)) headerBytes
                      @ map (\<lambda>b. byteToSample (uint b)) data;
          wavHeader = createWavHeader audioDataSize;
          wavData = int16ArrayBuffer audioData
      in wavHeader @ wavData)"

section \<open>Image to audio\<close>

text \<open>
  The two branches of \<open>imageToAudio\<close> that choose \<open>dataToEncode\<close>, \<open>headerBytes\<close> and
  \<open>originalSize\<close>.
\<close>

definition prepareEncoding ::
  "'f browser \<Rightarrow> 'f \<Rightarrow> SonificationOptions \<Rightarrow> error + (u8 list \<times> u8 list \<times> nat)" where
  "prepareEncoding B file options =
     (let q = (case jpegQuality options of None \<Rightarrow> 7 / 10 | Some x \<Rightarrow> x)
      in if quality options = compressed then
           (case imageToJpegBlob B file q of
              None \<Rightarrow> Inl DecodeFailure
            | Some jpegData \<Rightarrow>
                Inr (jpegData,
                     int32ToBytes MAGIC_JPEG @ int32ToBytes (int (length jpegData)),
                     file_size B file))
         else
           (case extractRawPixelData B file of
              None \<Rightarrow> Inl DecodeFailure
            | Some rawData \<Rightarrow>
                (let compressedPixels = compressData B (raw_data rawData);
                     originalSize = length (raw_data rawData)
                 in Inr (compressedPixels,
                         int32ToBytes MAGIC_FULL
                         @ int32ToBytes (raw_width rawData)
                         @ int32ToBytes (raw_height rawData)
                         @ int32ToBytes (int originalSize),
                         originalSize))))"

definition imageToAudio ::
  "'f browser \<Rightarrow> 'f \<Rightarrow> SonificationOptions \<Rightarrow> error + SonificationResult" where
  "imageToAudio B file options =
     (case prepareEncoding B file options of
        Inl e \<Rightarrow> Inl e
      | Inr (dataToEncode, headerBytes, originalSize) \<Rightarrow>
          (let totalSamples = length headerBytes + length dataToEncode
           in Inr \<lparr>audioBlob = bytesToWav dataToEncode headerBytes,
                   sampleRate = SAMPLE_RATE,
                   duration = js_div totalSamples (nat SAMPLE_RATE),
                   compressionRatio = js_div originalSize (length dataToEncode)\<rparr>))"

text \<open>
  The \<open>compressionRatio\<close> entry of \<open>resultInfo\<close> that \<open>handleProcess\<close> builds: the
  ratio when it is shown (the component formats it with one decimal and an "x"),
  \<open>None\<close> for \<open>undefined\<close>.
\<close>

definition handleProcess_compressionRatio :: "SonificationResult \<Rightarrow> jsnum option" where
  "handleProcess_compressionRatio result =
     (if js_truthy (compressionRatio result) \<and> js_gt1 (compressionRatio result)
      then Some (compressionRatio result) else None)"

section \<open>Audio to image\<close>

text \<open>
  Four \<open>dataView.getUint8\<close> reads turned into a string: any of them past the end of
  the buffer throws a \<open>RangeError\<close>.
\<close>

definition getTag :: "u8 list \<Rightarrow> nat \<Rightarrow> error + u8 list" where
  "getTag buf offset =
     (if offset + 4 \<le> length buf then Inr (take 4 (drop offset buf)) else Inl RangeError)"

text \<open>\<open>dataView.getUint32(offset, true)\<close>.\<close>

definition getUint32 :: "u8 list \<Rightarrow> nat \<Rightarrow> error + nat" where
  "getUint32 buf offset =
     (if offset + 4 \<le> length buf
      then Inr (unat (buf ! offset) + 256 * unat (buf ! (offset + 1))
                + 65536 * unat (buf ! (offset + 2)) + 16777216 * unat (buf ! (offset + 3)))
      else Inl RangeError)"

text \<open>
  The loop that looks for the data chunk, started at \<open>offset = 12\<close>; its value is the
  offset after the loop.
\<close>

function findDataChunk :: "u8 list \<Rightarrow> nat \<Rightarrow> error + nat" where
  "findDataChunk buf offset =
     (if int offset < int (length buf) - 8 then
        (case getTag buf offset of
           Inl e \<Rightarrow> Inl e
         | Inr chunkId \<Rightarrow>
            (case getUint32 buf (offset + 4) of
               Inl e \<Rightarrow> Inl e
             | Inr chunkSize \<Rightarrow>
                 if chunkId = tag_data then Inr (offset + 8)
                 else findDataChunk buf (offset + 8 + chunkSize)))
      else Inr offset)"
  by pat_completeness auto
termination
  by (relation "measure (\<lambda>(buf, offset). length buf - offset)") auto

declare findDataChunk.simps [simp del]

text \<open>\<open>new Int16Array(buffer)\<close>: a buffer of odd length throws a \<open>RangeError\<close>.\<close>

fun int16Elements :: "u8 list \<Rightarrow> int list" where
  "int16Elements (lo # hi # rest) =
     (let u = uint lo + 256 * uint hi
      in (if u < 32768 then u else u - 65536) # int16Elements rest)"
| "int16Elements [b] = []"
| "int16Elements [] = []"

definition newInt16Array :: "u8 list \<Rightarrow> error + int list" where
  "newInt16Array buf = (if even (length buf) then Inr (int16Elements buf) else Inl RangeError)"

text \<open>
  The first part of \<open>audioToImage\<close>: the RIFF check, the search for the data chunk and
  the view of the rest of the buffer (\<open>arrayBuffer.slice(offset)\<close>) as samples.
\<close>

definition readSamples :: "u8 list \<Rightarrow> error + int list" where
  "readSamples arrayBuffer =
     (case getTag arrayBuffer 0 of
        Inl e \<Rightarrow> Inl e
      | Inr riff \<Rightarrow>
          if riff \<noteq> tag_RIFF then Inl MalformedContainer
          else (case findDataChunk arrayBuffer 12 of
                  Inl e \<Rightarrow> Inl e
                | Inr offset \<Rightarrow> newInt16Array (drop offset arrayBuffer)))"

text \<open>
  The byte that \<open>target[j] = sampleToByte(samples[i])\<close> stores. Past the end of the
  samples, \<open>samples[i]\<close> is \<open>undefined\<close>, \<open>sampleToByte\<close> returns \<open>NaN\<close>, and the typed
  array stores 0.
\<close>

definition sampleToByteAt :: "int list \<Rightarrow> nat \<Rightarrow> u8" where
  "sampleToByteAt samples i =
     (if i < length samples then word_of_int (sampleToByte (samples ! i)) else 0)"

text \<open>The loop \<open>for (i = 0; i < n; i++) target[i] = sampleToByte(samples[start + i])\<close>.\<close>

definition decodedBytes :: "int list \<Rightarrow> nat \<Rightarrow> nat \<Rightarrow> u8 list" where
  "decodedBytes samples start n = map (\<lambda>i. sampleToByteAt samples (start + i)) [0..<n]"

definition readMagic :: "int list \<Rightarrow> int" where
  "readMagic samples = bytesToInt32 (decodedBytes samples 0 4) 0"

text \<open>The branch \<open>magic === MAGIC_JPEG\<close>.\<close>

definition decodeJpeg :: "'f browser \<Rightarrow> int list \<Rightarrow> error + ReconstructionResult" where
  "decodeJpeg B samples =
     (let headerBytes = decodedBytes samples 0 8;
          jpegLength = bytesToInt32 headerBytes 4;
          jpegData = decodedBytes samples 8 (nat jpegLength)
      in case getImageDimensions B jpegData of
           None \<Rightarrow> Inl DecodeFailure
         | Some (w, h) \<Rightarrow> Inr \<lparr>imageBlob = Jpeg jpegData, width = w, height = h\<rparr>)"

text \<open>
  \<open>new ImageData(data, sw, sh)\<close> on a \<open>Uint8ClampedArray\<close>: the number of bytes must be
  a non-zero multiple of 4, the number of pixels a multiple of \<open>sw\<close> (which fails for
  \<open>sw = 0\<close>), and \<open>sh\<close> the number of rows that results.
\<close>

definition newImageData :: "u8 list \<Rightarrow> int \<Rightarrow> int \<Rightarrow> error + unit" where
  "newImageData pixelData sw sh =
     (let len = int (length pixelData)
      in if len = 0 then Inl InvalidStateError
         else if len mod 4 \<noteq> 0 then Inl InvalidStateError
         else if sw = 0 then Inl IndexSizeError
         else if (len div 4) mod sw \<noteq> 0 then Inl IndexSizeError
         else if sh \<noteq> (len div 4) div sw then Inl IndexSizeError
         else Inr ())"

text \<open>
  The branch \<open>magic === MAGIC_FULL\<close>. \<open>new Uint8Array(compressedLength)\<close> throws a
  \<open>RangeError\<close> on a negative length. Of the canvas calls that follow the size check,
  \<open>new ImageData\<close> is modelled; the canvas itself (\<open>getContext\<close>, \<open>putImageData\<close>,
  \<open>toBlob\<close>) is taken to work, and the result records the pixel bytes put on it.
\<close>

definition decodeFull :: "'f browser \<Rightarrow> int list \<Rightarrow> error + ReconstructionResult" where
  "decodeFull B samples =
     (let headerBytes = decodedBytes samples 0 16;
          w = bytesToInt32 headerBytes 4;
          h = bytesToInt32 headerBytes 8;
          originalSize = bytesToInt32 headerBytes 12;
          compressedLength = int (length samples) - 16
      in if compressedLength < 0 then Inl RangeError
         else
           (let compressedData = decodedBytes samples 16 (nat compressedLength)
            in case decompressData B compressedData of
                 None \<Rightarrow> Inl DecodeFailure
               | Some rawPixelData \<Rightarrow>
                   if int (length rawPixelData) \<noteq> originalSize then Inl SizeMismatch
                   else
                     (case newImageData rawPixelData w h of
                        Inl e \<Rightarrow> Inl e
                      | Inr imageData \<Rightarrow>
                          Inr \<lparr>imageBlob = Png rawPixelData, width = w, height = h\<rparr>)))"

text \<open>
  \<open>new ArrayBuffer(expectedSize)\<close> throws a \<open>RangeError\<close> when the length is above
  \<open>2^53 - 1\<close>; limits of the machine's memory are not part of the model.
\<close>

definition handleLegacyFormat :: "int list \<Rightarrow> error + ReconstructionResult" where
  "handleLegacyFormat samples =
     (let legacyHeader = decodedBytes samples 0 12;
          w = bytesToInt32 legacyHeader 0;
          h = bytesToInt32 legacyHeader 4;
          channels = bytesToInt32 legacyHeader 8
      in if w \<le> 0 \<or> w > 32768 \<or> h \<le> 0 \<or> h > 32768 then Inl DimensionOutOfRange
         else
           (let expectedSize = w * h * channels
            in if expectedSize > 2 ^ 53 - 1 then Inl RangeError
               else
                 (let pixelData = decodedBytes samples 12 (nat expectedSize)
                  in case newImageData pixelData w h of
                       Inl e \<Rightarrow> Inl e
                     | Inr imageData \<Rightarrow>
                         Inr \<lparr>imageBlob = Png pixelData, width = w, height = h\<rparr>)))"

definition decodeSamples :: "'f browser \<Rightarrow> int list \<Rightarrow> error + ReconstructionResult" where
  "decodeSamples B samples =
     (let magic = readMagic samples
      in if magic = MAGIC_JPEG then decodeJpeg B samples
         else if magic = MAGIC_FULL then decodeFull B samples
         else handleLegacyFormat samples)"

definition audioToImage :: "'f browser \<Rightarrow> u8 list \<Rightarrow> error + ReconstructionResult" where
  "audioToImage B file =
     (case readSamples file of
        Inl e \<Rightarrow> Inl e
      | Inr samples \<Rightarrow> decodeSamples B samples)"

section \<open>Chunks, and instances for evaluation\<close>

text \<open>
  A RIFF file is a 12-byte preamble followed by chunks, each a 4-byte tag, a 32-bit
  little-endian length and that many bytes. \<open>hasDataChunk buf offset\<close> says that one of
  the chunks that start at \<open>offset\<close> and whose tag and length lie inside the buffer is
  tagged "data". It is the notion of a container with a payload chunk, stated apart
  from the loop of \<open>audioToImage\<close>.
\<close>

function hasDataChunk :: "u8 list \<Rightarrow> nat \<Rightarrow> bool" where
  "hasDataChunk buf offset =
     (if offset + 8 \<le> length buf then
        (if take 4 (drop offset buf) = tag_data then True
         else (case getUint32 buf (offset + 4) of
                 Inl e \<Rightarrow> False
               | Inr chunkSize \<Rightarrow> hasDataChunk buf (offset + 8 + chunkSize)))
      else False)"
  by pat_completeness auto
termination
  by (relation "measure (\<lambda>(buf, offset). length buf - offset)") auto

declare hasDataChunk.simps [simp del]

text \<open>
  A browser to evaluate the service with: a file is its decoded raster, the deflate
  streams store the bytes as they are, and no byte stream is a JPEG image.
\<close>

definition storedBrowser :: "RawPixelData browser" where
  "storedBrowser =
     \<lparr>file_size = (\<lambda>f. length (raw_data f)),
      imageToJpegBlob = (\<lambda>f q. Some (raw_data f)),
      extractRawPixelData = Some,
      compressData = (\<lambda>bytes. bytes),
      decompressData = Some,
      getImageDimensions = (\<lambda>bytes. None)\<rparr>"

definition fullOptions :: SonificationOptions where
  "fullOptions = \<lparr>quality = full, jpegQuality = None\<rparr>"

text \<open>A 2 by 2 image: a black, a white, a red and a green opaque pixel.\<close>

definition tinyImage :: RawPixelData where
  "tinyImage =
     \<lparr>raw_width = 2, raw_height = 2,
      raw_data = [0, 0, 0, 255, 255, 255, 255, 255, 255, 0, 0, 255, 0, 255, 0, 255]\<rparr>"

text \<open>
  A full-quality container that declares 4 bytes of pixels and carries a payload of 3.
\<close>

definition mismatchedWav :: "u8 list" where
  "mismatchedWav =
     bytesToWav [1, 2, 3]
       (int32ToBytes MAGIC_FULL @ int32ToBytes 1 @ int32ToBytes 1 @ int32ToBytes 4)"

text \<open>
  A full-quality container that declares a width of 0 and a height of 1, with a
  payload of the declared size.
\<close>

definition zeroWidthWav :: "u8 list" where
  "zeroWidthWav =
     bytesToWav [9, 9, 9, 9]
       (int32ToBytes MAGIC_FULL @ int32ToBytes 0 @ int32ToBytes 1 @ int32ToBytes 4)"

text \<open>
  A full-quality container that declares a width of 32769 and a height of 1, with a
  payload of the 131076 bytes that such an image has.
\<close>

definition wideWav :: "u8 list" where
  "wideWav =
     bytesToWav (replicate 131076 0)
       (int32ToBytes MAGIC_FULL @ int32ToBytes 32769 @ int32ToBytes 1 @ int32ToBytes 131076)"

text \<open>
  A legacy container (no magic) that declares a 1 by 1 image of 4 channels and carries
  2 of its 4 pixel bytes.
\<close>

definition truncatedLegacyWav :: "u8 list" where
  "truncatedLegacyWav =
     bytesToWav [255, 0] (int32ToBytes 1 @ int32ToBytes 1 @ int32ToBytes 4)"

text \<open>The 12-byte RIFF preamble alone: no chunk follows.\<close>

definition riffOnly :: "u8 list" where
  "riffOnly = tag_RIFF @ int32ToBytes 4 @ tag_WAVE"

section \<open>The sample codec\<close>

lemma Math_round_div256: "Math_round (of_int s / 256) = (s + 128) div 256"
proof -
  have "(of_int s / 256 + 1 / 2 :: rat) = of_int (s + 128) / of_int 256" by simp
  then show ?thesis unfolding Math_round_def by (simp only: floor_divide_of_int_eq)
qed

lemma sampleToByte_eq: "sampleToByte s = max 0 (min 255 ((s + 128) div 256 + 128))"
  by (simp add: sampleToByte_def Math_round_div256)

text \<open>
  Claim C2. For every byte \<open>b\<close> in \<open>0..255\<close>, \<open>sampleToByte (byteToSample b)\<close> is
  \<open>b\<close>: the forward map gives a multiple of 256, so the rounding of the inverse is
  exact.
\<close>

theorem sample_bijection:
  assumes "0 \<le> b" and "b \<le> 255"
  shows "sampleToByte (byteToSample b) = b"
proof -
  have "((b - 128) * 256 + 128) div 256 = b - 128" by simp
  then show ?thesis using assms by (simp add: sampleToByte_eq byteToSample_def)
qed

theorem sample_bijection_witness:
  "(0::int) \<le> 200 \<and> (200::int) \<le> 255 \<and> sampleToByte (byteToSample 200) = 200"
  using sample_bijection [of 200] by simp

text \<open>
  Claim C10. Whatever the sample (a multiple of 256 or not, and every 16-bit value in
  particular), \<open>sampleToByte\<close> returns an integer between 0 and 255.
\<close>

theorem sampleToByte_in_byte_range: "0 \<le> sampleToByte s \<and> sampleToByte s \<le> 255"
  by (simp add: sampleToByte_eq)

section \<open>Little-endian fields and the container layout\<close>

lemma and_0xff: "(x::int) AND 0xff = x mod 256"
proof -
  have "(0xff::int) = mask 8" by (simp add: mask_eq_exp_minus_1)
  then show ?thesis by (simp only: flip: take_bit_eq_mask) (simp add: take_bit_eq_mod)
qed

lemma uint_low_byte: "uint (word_of_int (x AND 0xff) :: u8) = take_bit 8 x"
  by (simp add: and_0xff uint_word_of_int take_bit_eq_mod)

lemma length_int32ToBytes: "length (int32ToBytes v) = 4"
  by (simp add: int32ToBytes_def)

lemma length_int16ToBytes: "length (int16ToBytes v) = 2"
  by (simp add: int16ToBytes_def)

lemma createWavHeader_bytes:
  "createWavHeader n =
     tag_RIFF @ int32ToBytes (36 + n)
     @ [0x57, 0x41, 0x56, 0x45, 0x66, 0x6d, 0x74, 0x20, 16, 0, 0, 0, 1, 0, 1, 0,
        0x44, 0xAC, 0, 0, 0x88, 0x58, 1, 0, 2, 0, 16, 0]
     @ tag_data @ int32ToBytes n"
  by (simp add: createWavHeader_def int32ToBytes_def int16ToBytes_def tag_WAVE_def tag_fmt_def
      SAMPLE_RATE_def NUM_CHANNELS_def BITS_PER_SAMPLE_def)

lemma length_createWavHeader: "length (createWavHeader n) = 44"
  by (simp add: createWavHeader_bytes length_int32ToBytes tag_RIFF_def tag_data_def)


lemma le32_digits:
  fixes n :: nat
  shows "n mod 256 + 256 * (n div 256 mod 256) + 65536 * (n div 65536 mod 256)
           + 16777216 * (n div 16777216) = n"
proof -
  define a where "a = n div 256"
  define b where "b = a div 256"
  define c where "c = b div 256"
  have b: "n div 65536 = b" unfolding b_def a_def by (simp add: div_mult2_eq)
  have c: "n div 16777216 = c" unfolding c_def b_def a_def by (simp add: div_mult2_eq)
  have "n = n mod 256 + 256 * a" unfolding a_def by simp
  moreover have "a = a mod 256 + 256 * b" unfolding b_def by simp
  moreover have "b = b mod 256 + 256 * c" unfolding c_def by simp
  ultimately show ?thesis unfolding b c unfolding a_def [symmetric] by linarith
qed


lemma unat_low_byte: "unat (word_of_int (x AND 0xff) :: u8) = nat (x mod 256)"
  using uint_low_byte [of x] by (simp add: take_bit_eq_mod unat_eq_nat_uint)

lemma unat_byte_of_nat:
  assumes "0 \<le> v"
  shows "unat (word_of_int (drop_bit k v AND 0xff) :: u8) = nat v div 2 ^ k mod 256"
proof -
  have nn: "0 \<le> v div 2 ^ k" using assms by (simp add: pos_imp_zdiv_nonneg_iff)
  have "nat (v div 2 ^ k mod 256) = nat (v div 2 ^ k) mod 256"
    using nn by (simp add: nat_mod_distrib)
  also have "nat (v div 2 ^ k) = nat v div 2 ^ k"
    using assms by (simp add: nat_div_distrib nat_power_eq)
  finally show ?thesis by (simp add: unat_low_byte drop_bit_eq_div)
qed

lemma getUint32_int32ToBytes:
  assumes "0 \<le> v" and "v < 2 ^ 32" and "length pre = k"
  shows "getUint32 (pre @ int32ToBytes v @ rest) k = Inr (nat v)"
proof -
  have top: "nat v div 16777216 mod 256 = nat v div 16777216"
    using assms by (simp add: nat_less_iff div_less_iff_less_mult)
  have b0: "unat (word_of_int (v AND 0xff) :: u8) = nat v mod 256"
    using unat_byte_of_nat [OF assms(1), of 0] by simp
  have b1: "unat (word_of_int (drop_bit 8 v AND 0xff) :: u8) = nat v div 256 mod 256"
    using unat_byte_of_nat [OF assms(1), of 8] by simp
  have b2: "unat (word_of_int (drop_bit 16 v AND 0xff) :: u8) = nat v div 65536 mod 256"
    using unat_byte_of_nat [OF assms(1), of 16] by simp
  have b3: "unat (word_of_int (drop_bit 24 v AND 0xff) :: u8) = nat v div 16777216"
    using unat_byte_of_nat [OF assms(1), of 24] top by simp
  show ?thesis
    using le32_digits [of "nat v"] assms(3)
    by (simp add: getUint32_def int32ToBytes_def nth_append b0 b1 b2 b3)
qed



lemma getTag_RIFF: "getTag (createWavHeader n @ rest) 0 = Inr tag_RIFF"
  by (simp add: getTag_def createWavHeader_bytes int32ToBytes_def tag_RIFF_def tag_data_def)

lemma findDataChunk_encoded:
  assumes "rest \<noteq> []"
  shows "findDataChunk (createWavHeader n @ rest) 12 = Inr 44"
proof -
  let ?buf = "createWavHeader n @ rest"
  have len: "length ?buf = 44 + length rest" by (simp add: length_createWavHeader)
  have pos: "0 < length rest" using assms by simp
  have t12: "getTag ?buf 12 = Inr tag_fmt"
    by (simp add: getTag_def createWavHeader_bytes int32ToBytes_def tag_RIFF_def tag_data_def
        tag_fmt_def)
  have s16: "getUint32 ?buf 16 = Inr 16"
    by (simp add: getUint32_def createWavHeader_bytes int32ToBytes_def tag_RIFF_def tag_data_def)
  have t36: "getTag ?buf 36 = Inr tag_data"
    by (simp add: getTag_def createWavHeader_bytes int32ToBytes_def tag_RIFF_def tag_data_def)
  have s40: "\<exists>k. getUint32 ?buf 40 = Inr k"
    by (simp add: getUint32_def length_createWavHeader)
  have ne: "tag_fmt \<noteq> tag_data" by (simp add: tag_fmt_def tag_data_def)
  have "findDataChunk ?buf 12 = findDataChunk ?buf 36"
    by (subst findDataChunk.simps) (simp add: length_createWavHeader t12 s16 ne)
  also have "\<dots> = Inr 44"
    using s40 pos by (subst findDataChunk.simps) (auto simp add: length_createWavHeader t36)
  finally show ?thesis .
qed

lemma int16_store_load:
  assumes "- 32768 \<le> s" and "s < 32768"
  shows "(if uint (word_of_int s :: u8) + 256 * uint (word_of_int (drop_bit 8 s) :: u8) < 32768
          then uint (word_of_int s :: u8) + 256 * uint (word_of_int (drop_bit 8 s) :: u8)
          else uint (word_of_int s :: u8) + 256 * uint (word_of_int (drop_bit 8 s) :: u8) - 65536)
         = s"
proof -
  have "s mod 256 + 256 * (s div 256 mod 256) = s mod 65536"
    using zmod_zmult2_eq [of 256 s 256] by simp
  moreover have "s mod 65536 = (if 0 \<le> s then s else s + 65536)"
  proof (cases "0 \<le> s")
    case True
    then show ?thesis using assms by simp
  next
    case False
    have "(s + 65536) mod 65536 = s + 65536"
      by (rule mod_pos_pos_trivial) (use assms False in linarith)+
    then show ?thesis using False by simp
  qed
  ultimately show ?thesis
    using assms by (simp add: uint_word_of_int take_bit_eq_mod drop_bit_eq_div)
qed

lemma int16Elements_buffer:
  assumes "\<forall>s \<in> set ss. - 32768 \<le> s \<and> s < 32768"
  shows "int16Elements (int16ArrayBuffer ss) = ss"
  using assms
proof (induction ss)
  case Nil
  then show ?case by (simp add: int16ArrayBuffer_def)
next
  case (Cons s ss)
  then have "int16Elements (int16ArrayBuffer ss) = ss" by simp
  moreover have "- 32768 \<le> s" "s < 32768" using Cons.prems by simp_all
  ultimately show ?case
    using int16_store_load [of s] by (simp add: int16ArrayBuffer_def Let_def)
qed

lemma length_int16ArrayBuffer: "length (int16ArrayBuffer ss) = 2 * length ss"
  by (induction ss) (simp_all add: int16ArrayBuffer_def)

lemma byteToSample_range: "- 32768 \<le> byteToSample (uint (b::u8)) \<and> byteToSample (uint b) < 32768"
proof -
  have "uint b < 256" using uint_bounded [of b] by simp
  moreover have "0 \<le> uint b" by simp
  ultimately show ?thesis by (simp add: byteToSample_def)
qed

lemma newInt16Array_encoded:
  "newInt16Array (int16ArrayBuffer (map (\<lambda>b. byteToSample (uint b)) bs))
     = Inr (map (\<lambda>b. byteToSample (uint (b::u8))) bs)"
  by (simp add: newInt16Array_def length_int16ArrayBuffer int16Elements_buffer byteToSample_range)


lemma sampleToByte_byteToSample_uint: "sampleToByte (byteToSample (uint (b::u8))) = uint b"
proof -
  have "uint b < 256" using uint_bounded [of b] by simp
  moreover have "((uint b - 128) * 256 + 128) div 256 = uint b - 128" by simp
  ultimately show ?thesis by (simp add: sampleToByte_eq byteToSample_def)
qed

lemma sampleToByteAt_encoded:
  assumes "i < length bs"
  shows "sampleToByteAt (map (\<lambda>b. byteToSample (uint b)) bs) i = bs ! i"
  using assms by (simp add: sampleToByteAt_def sampleToByte_byteToSample_uint)

lemma length_decodedBytes: "length (decodedBytes samples start n) = n"
  by (simp add: decodedBytes_def)

lemma nth_decodedBytes:
  "i < n \<Longrightarrow> decodedBytes samples start n ! i = sampleToByteAt samples (start + i)"
  by (simp add: decodedBytes_def)

lemma decodedBytes_encoded:
  assumes "start + n \<le> length bs"
  shows "decodedBytes (map (\<lambda>b. byteToSample (uint b)) bs) start n = take n (drop start bs)"
proof (rule nth_equalityI)
  show "length (decodedBytes (map (\<lambda>b. byteToSample (uint b)) bs) start n)
          = length (take n (drop start bs))"
    using assms by (simp add: length_decodedBytes)
next
  fix i
  assume "i < length (decodedBytes (map (\<lambda>b. byteToSample (uint b)) bs) start n)"
  then have "i < n" by (simp add: length_decodedBytes)
  then show "decodedBytes (map (\<lambda>b. byteToSample (uint b)) bs) start n ! i
               = take n (drop start bs) ! i"
    using assms by (simp add: nth_decodedBytes sampleToByteAt_encoded)
qed

lemma le_bytes_take_bit:
  "take_bit 8 v OR take_bit 32 (push_bit 8 (take_bit 8 (drop_bit 8 v)))
      OR take_bit 32 (push_bit 16 (take_bit 8 (drop_bit 16 v)))
      OR take_bit 32 (push_bit 24 (take_bit 8 (drop_bit 24 v)))
   = take_bit 32 (v::int)"
proof (rule bit_eqI)
  fix n :: nat
  have a: "8 \<le> n \<Longrightarrow> 8 + (n - 8) = n" and b: "16 \<le> n \<Longrightarrow> 16 + (n - 16) = n"
    and c: "24 \<le> n \<Longrightarrow> 24 + (n - 24) = n" by simp_all
  consider "n < 8" | "8 \<le> n" "n < 16" | "16 \<le> n" "n < 24" | "24 \<le> n" "n < 32" | "32 \<le> n"
    by linarith
  then show "bit (take_bit 8 v OR take_bit 32 (push_bit 8 (take_bit 8 (drop_bit 8 v)))
      OR take_bit 32 (push_bit 16 (take_bit 8 (drop_bit 16 v)))
      OR take_bit 32 (push_bit 24 (take_bit 8 (drop_bit 24 v)))) n
    = bit (take_bit 32 v) n"
    by cases (simp_all add: bit_simps a b c, linarith+)
qed

lemma bytesToInt32_int32ToBytes:
  assumes "length pre = k"
  shows "bytesToInt32 (pre @ int32ToBytes v @ rest) k = take_bit 32 v"
  unfolding bytesToInt32_def int32ToBytes_def
  using le_bytes_take_bit [of v] assms
  by (simp add: byteAt_def uint_low_byte nth_append)

lemma bytesToInt32_int32ToBytes_id:
  assumes "length pre = k" and "0 \<le> v" and "v < 2 ^ 32"
  shows "bytesToInt32 (pre @ int32ToBytes v @ rest) k = v"
  using assms by (simp add: bytesToInt32_int32ToBytes take_bit_int_eq_self)

lemma readSamples_bytesToWav:
  assumes "headerBytes @ data \<noteq> []"
  shows "readSamples (bytesToWav data headerBytes)
           = Inr (map (\<lambda>b. byteToSample (uint b)) (headerBytes @ data))"
proof -
  let ?ss = "map (\<lambda>b. byteToSample (uint b)) (headerBytes @ data)"
  let ?n = "int (length headerBytes + length data) * 2"
  have wav: "bytesToWav data headerBytes = createWavHeader ?n @ int16ArrayBuffer ?ss"
    by (simp add: bytesToWav_def Let_def)
  have ne: "int16ArrayBuffer ?ss \<noteq> []"
    using assms length_int16ArrayBuffer [of ?ss] by (metis length_0_conv length_map mult_is_0 zero_neq_numeral)
  have "findDataChunk (createWavHeader ?n @ int16ArrayBuffer ?ss) 12 = Inr 44"
    using ne by (rule findDataChunk_encoded)
  then show ?thesis
    unfolding wav readSamples_def
    using newInt16Array_encoded [of "headerBytes @ data"]
    by (simp add: getTag_RIFF length_createWavHeader)
qed

section \<open>The encoded container\<close>

text \<open>
  Claim C9. For every header and payload whose samples fit the 32-bit size field (a
  WAV file of less than 4 GiB), the container that \<open>bytesToWav\<close> builds has the tag
  "data" at byte 36, declares \<open>(header.length + payload.length) * 2\<close> bytes of data at
  byte 40, and the bytes from 44 on are exactly that many: read as 16-bit samples they
  are one sample per encoded byte, \<open>byteToSample\<close> of the header bytes and then of the
  payload bytes, in order.
\<close>

theorem bytesToWav_payload_chunk:
  assumes "2 * (length headerBytes + length data) < 2 ^ 32"
  shows "take 4 (drop 36 (bytesToWav data headerBytes)) = tag_data
    \<and> getUint32 (bytesToWav data headerBytes) 40 = Inr (2 * (length headerBytes + length data))
    \<and> length (drop 44 (bytesToWav data headerBytes)) = 2 * (length headerBytes + length data)
    \<and> newInt16Array (drop 44 (bytesToWav data headerBytes))
          = Inr (map (\<lambda>b. byteToSample (uint b)) (headerBytes @ data))
    \<and> length (map (\<lambda>b. byteToSample (uint b)) (headerBytes @ data))
          = length headerBytes + length data"
proof -
  let ?ss = "map (\<lambda>b. byteToSample (uint b)) (headerBytes @ data)"
  let ?n = "int (length headerBytes + length data) * 2"
  have wav: "bytesToWav data headerBytes = createWavHeader ?n @ int16ArrayBuffer ?ss"
    by (simp add: bytesToWav_def Let_def)
  have tag: "take 4 (drop 36 (createWavHeader ?n @ int16ArrayBuffer ?ss)) = tag_data"
    by (simp add: createWavHeader_bytes int32ToBytes_def tag_RIFF_def tag_data_def)
  have "int (2 * (length headerBytes + length data)) < int (2 ^ 32)"
    using assms by (simp only: of_nat_less_iff)
  then have bound: "?n < 2 ^ 32" by simp
  have "createWavHeader ?n @ int16ArrayBuffer ?ss
          = (tag_RIFF @ int32ToBytes (36 + ?n)
             @ [0x57, 0x41, 0x56, 0x45, 0x66, 0x6d, 0x74, 0x20, 16, 0, 0, 0, 1, 0, 1, 0,
                0x44, 0xAC, 0, 0, 0x88, 0x58, 1, 0, 2, 0, 16, 0] @ tag_data)
            @ int32ToBytes ?n @ int16ArrayBuffer ?ss"
    by (simp add: createWavHeader_bytes)
  moreover have "getUint32 ((tag_RIFF @ int32ToBytes (36 + ?n)
             @ [0x57, 0x41, 0x56, 0x45, 0x66, 0x6d, 0x74, 0x20, 16, 0, 0, 0, 1, 0, 1, 0,
                0x44, 0xAC, 0, 0, 0x88, 0x58, 1, 0, 2, 0, 16, 0] @ tag_data)
            @ int32ToBytes ?n @ int16ArrayBuffer ?ss) 40 = Inr (nat ?n)"
    by (rule getUint32_int32ToBytes)
       (use bound in \<open>simp_all add: length_int32ToBytes tag_RIFF_def tag_data_def\<close>)
  ultimately have size: "getUint32 (createWavHeader ?n @ int16ArrayBuffer ?ss) 40
      = Inr (2 * (length headerBytes + length data))"
    by (simp add: nat_mult_distrib)
  have len: "length (drop 44 (createWavHeader ?n @ int16ArrayBuffer ?ss))
      = 2 * (length headerBytes + length data)"
    by (simp add: length_createWavHeader length_int16ArrayBuffer)
  have samples: "newInt16Array (drop 44 (createWavHeader ?n @ int16ArrayBuffer ?ss)) = Inr ?ss"
    using newInt16Array_encoded [of "headerBytes @ data"]
    by (simp add: length_createWavHeader)
  show ?thesis unfolding wav using tag size len samples by simp
qed

theorem bytesToWav_payload_chunk_witness:
  "2 * (length [1, 2 :: u8] + length [3 :: u8]) < (2::nat) ^ 32
    \<and> take 4 (drop 36 (bytesToWav [3] [1, 2])) = tag_data
    \<and> getUint32 (bytesToWav [3] [1, 2]) 40 = Inr (2 * (length [1, 2 :: u8] + length [3 :: u8]))
    \<and> length (drop 44 (bytesToWav [3] [1, 2])) = 2 * (length [1, 2 :: u8] + length [3 :: u8])
    \<and> newInt16Array (drop 44 (bytesToWav [3] [1, 2]))
          = Inr (map (\<lambda>b. byteToSample (uint b)) ([1, 2 :: u8] @ [3]))
    \<and> length (map (\<lambda>b. byteToSample (uint b)) ([1, 2 :: u8] @ [3]))
          = length [1, 2 :: u8] + length [3 :: u8]"
  using bytesToWav_payload_chunk [of "[1, 2]" "[3]"] by simp

section \<open>Full quality: encode, then decode\<close>

lemma newImageData_rgba:
  assumes "0 < sw" and "0 < sh" and "int (length pixelData) = 4 * sw * sh"
  shows "newImageData pixelData sw sh = Inr ()"
proof -
  have eq: "int (length pixelData) = 4 * (sw * sh)" using assms(3) by (simp add: mult.assoc)
  have pos: "0 < sw * sh" using assms(1,2) by simp
  have d: "int (length pixelData) div 4 = sw * sh" unfolding eq by simp
  have m: "int (length pixelData) mod 4 = 0" unfolding eq by simp
  have z: "int (length pixelData) \<noteq> 0" unfolding eq using pos by linarith
  have sw: "sw \<noteq> 0" using assms(1) by simp
  have r: "sw * sh mod sw = 0" "sw * sh div sw = sh" using sw by simp_all
  show ?thesis
    unfolding newImageData_def Let_def d by (simp only: z m sw r if_False simp_thms)
qed

lemma readMagic_encoded:
  "readMagic (map (\<lambda>b. byteToSample (uint b)) (int32ToBytes v @ rest)) = take_bit 32 v"
proof -
  have "decodedBytes (map (\<lambda>b. byteToSample (uint b)) (int32ToBytes v @ rest)) 0 4
          = int32ToBytes v"
    by (subst decodedBytes_encoded) (simp_all add: length_int32ToBytes)
  then show ?thesis
    using bytesToInt32_int32ToBytes [of "[]" 0 v "[]"] by (simp add: readMagic_def)
qed

lemma decodeFull_encoded:
  fixes B :: "'f browser"
  assumes w: "0 \<le> w" "w < 2 ^ 32" and h: "0 \<le> h" "h < 2 ^ 32"
    and n: "0 \<le> n" "n < 2 ^ 32"
  shows "decodeFull B (map (\<lambda>b. byteToSample (uint b))
            ((int32ToBytes m @ int32ToBytes w @ int32ToBytes h @ int32ToBytes n) @ payload))
         = (case decompressData B payload of
              None \<Rightarrow> Inl DecodeFailure
            | Some rawPixelData \<Rightarrow>
                if int (length rawPixelData) \<noteq> n then Inl SizeMismatch
                else
                  (case newImageData rawPixelData w h of
                     Inl e \<Rightarrow> Inl e
                   | Inr imageData \<Rightarrow>
                       Inr \<lparr>imageBlob = Png rawPixelData, width = w, height = h\<rparr>))"
proof -
  let ?hdr = "int32ToBytes m @ int32ToBytes w @ int32ToBytes h @ int32ToBytes n"
  let ?ss = "map (\<lambda>b. byteToSample (uint b)) (?hdr @ payload)"
  have lh: "length ?hdr = 16" by (simp add: length_int32ToBytes)
  have hb: "decodedBytes ?ss 0 16 = ?hdr"
    by (subst decodedBytes_encoded) (simp_all add: length_int32ToBytes)
  have pl: "decodedBytes ?ss 16 (length payload) = payload"
    by (subst decodedBytes_encoded) (simp_all add: length_int32ToBytes)
  have fw: "bytesToInt32 ?hdr 4 = w"
    using bytesToInt32_int32ToBytes_id [of "int32ToBytes m" 4 w "int32ToBytes h @ int32ToBytes n"] w
    by (simp add: length_int32ToBytes)
  have fh: "bytesToInt32 ?hdr 8 = h"
    using bytesToInt32_int32ToBytes_id [of "int32ToBytes m @ int32ToBytes w" 8 h "int32ToBytes n"] h
    by (simp add: length_int32ToBytes)
  have fn: "bytesToInt32 ?hdr 12 = n"
    using bytesToInt32_int32ToBytes_id
      [of "int32ToBytes m @ int32ToBytes w @ int32ToBytes h" 12 n "[]"] n
    by (simp add: length_int32ToBytes)
  have ls: "int (length ?ss) - 16 = int (length payload)"
    by (simp add: length_int32ToBytes)
  show ?thesis
    unfolding decodeFull_def Let_def hb fw fh fn ls
    using pl by (simp split: option.splits)
qed

text \<open>
  Claim C1. Take a raw RGBA image that the browser extracts from the file (4 bytes for
  each of its \<open>width * height\<close> pixels, neither dimension 0) whose byte length fits the
  32-bit header field, and a deflate implementation that decompresses what it
  compressed. Encoding at full quality succeeds, and decoding the resulting WAV file
  puts on the canvas exactly the original pixel bytes, with the original width and
  height.
\<close>

theorem full_round_trip:
  fixes B :: "'f browser"
  assumes extr: "extractRawPixelData B file = Some img"
    and lossless: "decompressData B (compressData B (raw_data img)) = Some (raw_data img)"
    and rgba: "0 < raw_width img" "0 < raw_height img"
      "int (length (raw_data img)) = 4 * raw_width img * raw_height img"
    and n: "length (raw_data img) < 2 ^ 32"
    and mode: "quality options = full"
  shows "\<exists>res. imageToAudio B file options = Inr res
           \<and> audioToImage B (audioBlob res)
               = Inr \<lparr>imageBlob = Png (raw_data img),
                      width = raw_width img, height = raw_height img\<rparr>"
proof -
  let ?hdr = "int32ToBytes MAGIC_FULL @ int32ToBytes (raw_width img)
              @ int32ToBytes (raw_height img) @ int32ToBytes (int (length (raw_data img)))"
  let ?payload = "compressData B (raw_data img)"
  let ?ss = "map (\<lambda>b. byteToSample (uint b)) (?hdr @ ?payload)"
  have prep: "prepareEncoding B file options = Inr (?payload, ?hdr, length (raw_data img))"
    using extr mode by (simp add: prepareEncoding_def Let_def)
  have blob: "\<exists>res. imageToAudio B file options = Inr res
                \<and> audioBlob res = bytesToWav ?payload ?hdr"
    by (simp add: imageToAudio_def prep Let_def)
  have "?hdr @ ?payload \<noteq> []" by (simp add: int32ToBytes_def)
  then have rs: "readSamples (bytesToWav ?payload ?hdr) = Inr ?ss"
    by (rule readSamples_bytesToWav)
  have "readMagic ?ss = take_bit 32 MAGIC_FULL"
    using readMagic_encoded [of MAGIC_FULL "int32ToBytes (raw_width img)
              @ int32ToBytes (raw_height img) @ int32ToBytes (int (length (raw_data img)))
              @ ?payload"]
    by (simp only: append_assoc)
  then have magic: "readMagic ?ss = MAGIC_FULL" by (simp add: MAGIC_FULL_def)
  have n': "int (length (raw_data img)) < 2 ^ 32"
    using n by (simp only: flip: of_nat_less_iff [where ?'a = int]) simp
  have other: "MAGIC_FULL \<noteq> MAGIC_JPEG" by (simp add: MAGIC_FULL_def MAGIC_JPEG_def)
  have area: "int (length (raw_data img)) = 4 * (raw_width img * raw_height img)"
    using rgba(3) by (simp add: mult.assoc)
  have "raw_width img * 1 \<le> raw_width img * raw_height img"
    by (rule mult_left_mono) (use rgba in simp_all)
  then have "raw_width img \<le> raw_width img * raw_height img" by (simp only: mult_1_right)
  then have w: "0 \<le> raw_width img" "raw_width img < 2 ^ 32"
    using rgba(1) n' area by linarith+
  have "1 * raw_height img \<le> raw_width img * raw_height img"
    by (rule mult_right_mono) (use rgba in simp_all)
  then have "raw_height img \<le> raw_width img * raw_height img" by (simp only: mult_1)
  then have h: "0 \<le> raw_height img" "raw_height img < 2 ^ 32"
    using rgba(2) n' area by linarith+
  have "decodeFull B ?ss
      = Inr \<lparr>imageBlob = Png (raw_data img),
             width = raw_width img, height = raw_height img\<rparr>"
    using decodeFull_encoded [OF w h _ n', of B MAGIC_FULL ?payload] lossless
      newImageData_rgba [OF rgba]
    by simp
  then have "decodeSamples B ?ss
      = Inr \<lparr>imageBlob = Png (raw_data img),
             width = raw_width img, height = raw_height img\<rparr>"
    unfolding decodeSamples_def Let_def magic using other by simp
  then have "audioToImage B (bytesToWav ?payload ?hdr)
      = Inr \<lparr>imageBlob = Png (raw_data img),
             width = raw_width img, height = raw_height img\<rparr>"
    unfolding audioToImage_def rs by simp
  with blob show ?thesis by auto
qed

theorem full_round_trip_witness:
  "extractRawPixelData storedBrowser tinyImage = Some tinyImage
   \<and> decompressData storedBrowser (compressData storedBrowser (raw_data tinyImage))
       = Some (raw_data tinyImage)
   \<and> 0 < raw_width tinyImage \<and> 0 < raw_height tinyImage
   \<and> int (length (raw_data tinyImage)) = 4 * raw_width tinyImage * raw_height tinyImage
   \<and> length (raw_data tinyImage) < 2 ^ 32
   \<and> quality fullOptions = full
   \<and> (\<exists>res. imageToAudio storedBrowser tinyImage fullOptions = Inr res
           \<and> audioToImage storedBrowser (audioBlob res)
               = Inr \<lparr>imageBlob = Png (raw_data tinyImage),
                      width = raw_width tinyImage, height = raw_height tinyImage\<rparr>)"
  using full_round_trip [of storedBrowser tinyImage tinyImage fullOptions]
  by (simp add: storedBrowser_def tinyImage_def fullOptions_def)

section \<open>Decoding: rejected containers\<close>

text \<open>A buffer of fewer than 4 bytes fails in the first \<open>getUint8\<close> past its end.\<close>

lemma audioToImage_short_buffer:
  assumes "length file < 4"
  shows "audioToImage B file = Inl RangeError"
  using assms by (simp add: audioToImage_def readSamples_def getTag_def)

text \<open>
  Claim C7, as stated, fails: the 2-byte buffer "RI" does not begin with "RIFF", and
  \<open>audioToImage\<close> fails on it with the \<open>RangeError\<close> of \<open>getUint8(2)\<close>, before the tag
  is compared.
\<close>

theorem short_buffer_counterexample:
  "take 4 [0x52, 0x49 :: u8] \<noteq> tag_RIFF
   \<and> audioToImage storedBrowser [0x52, 0x49] = Inl RangeError"
  using audioToImage_short_buffer [of "[0x52, 0x49]" storedBrowser]
  by (simp add: tag_RIFF_def)

text \<open>
  Claim C7, amended. For every buffer of at least 4 bytes whose first 4 bytes are not
  "RIFF", \<open>audioToImage\<close> fails with "Invalid WAV file: missing RIFF header"
  (\<open>MalformedContainer\<close>).
\<close>

theorem non_riff_rejected:
  assumes "4 \<le> length file" and "take 4 file \<noteq> tag_RIFF"
  shows "audioToImage B file = Inl MalformedContainer"
  using assms by (simp add: audioToImage_def readSamples_def getTag_def)

theorem non_riff_rejected_witness:
  "4 \<le> length [0x4f, 0x67, 0x67, 0x53, 0 :: u8]
   \<and> take 4 [0x4f, 0x67, 0x67, 0x53, 0 :: u8] \<noteq> tag_RIFF
   \<and> audioToImage storedBrowser [0x4f, 0x67, 0x67, 0x53, 0] = Inl MalformedContainer"
  using non_riff_rejected [of "[0x4f, 0x67, 0x67, 0x53, 0]" storedBrowser]
  by (simp add: tag_RIFF_def)

lemma mismatched_samples:
  "readSamples mismatchedWav
     = Inr (map (\<lambda>b. byteToSample (uint b))
             ((int32ToBytes MAGIC_FULL @ int32ToBytes 1 @ int32ToBytes 1 @ int32ToBytes 4)
              @ [1, 2, 3]))"
  unfolding mismatchedWav_def by (rule readSamples_bytesToWav) simp

text \<open>
  Claim C6. For every full-quality container (RIFF file whose samples start with the
  magic "FULL" and hold the 16-byte header) whose payload decompresses to a number of
  bytes other than the \<open>originalSize\<close> of its header, \<open>audioToImage\<close> fails with
  \<open>SizeMismatch\<close>: no image is returned.
\<close>

theorem size_mismatch_detected:
  fixes B :: "'f browser"
  assumes "readSamples file = Inr samples"
    and "readMagic samples = MAGIC_FULL"
    and "16 \<le> length samples"
    and "decompressData B (decodedBytes samples 16 (length samples - 16)) = Some rawPixelData"
    and "int (length rawPixelData) \<noteq> bytesToInt32 (decodedBytes samples 0 16) 12"
  shows "audioToImage B file = Inl SizeMismatch"
proof -
  have other: "MAGIC_FULL \<noteq> MAGIC_JPEG" by (simp add: MAGIC_FULL_def MAGIC_JPEG_def)
  have len: "nat (int (length samples) - 16) = length samples - 16" by simp
  have "decodeFull B samples = Inl SizeMismatch"
    unfolding decodeFull_def Let_def len using assms(3,4,5) by simp
  then have "decodeSamples B samples = Inl SizeMismatch"
    unfolding decodeSamples_def Let_def assms(2) using other by simp
  then show ?thesis unfolding audioToImage_def assms(1) by simp
qed

theorem size_mismatch_detected_witness:
  "readSamples mismatchedWav
     = Inr (map (\<lambda>b. byteToSample (uint b))
             ((int32ToBytes MAGIC_FULL @ int32ToBytes 1 @ int32ToBytes 1 @ int32ToBytes 4)
              @ [1, 2, 3]))
   \<and> readMagic (map (\<lambda>b. byteToSample (uint b))
             ((int32ToBytes MAGIC_FULL @ int32ToBytes 1 @ int32ToBytes 1 @ int32ToBytes 4)
              @ [1, 2, 3])) = MAGIC_FULL
   \<and> 16 \<le> length (map (\<lambda>b. byteToSample (uint b))
             ((int32ToBytes MAGIC_FULL @ int32ToBytes 1 @ int32ToBytes 1 @ int32ToBytes 4)
              @ [1, 2, 3 :: u8]))
   \<and> decompressData storedBrowser
         (decodedBytes (map (\<lambda>b. byteToSample (uint b))
             ((int32ToBytes MAGIC_FULL @ int32ToBytes 1 @ int32ToBytes 1 @ int32ToBytes 4)
              @ [1, 2, 3])) 16 3) = Some [1, 2, 3]
   \<and> int (length [1, 2, 3 :: u8])
       \<noteq> bytesToInt32 (decodedBytes (map (\<lambda>b. byteToSample (uint b))
             ((int32ToBytes MAGIC_FULL @ int32ToBytes 1 @ int32ToBytes 1 @ int32ToBytes 4)
              @ [1, 2, 3])) 0 16) 12
   \<and> audioToImage storedBrowser mismatchedWav = Inl SizeMismatch"
proof -
  let ?hdr = "int32ToBytes MAGIC_FULL @ int32ToBytes 1 @ int32ToBytes 1 @ int32ToBytes 4"
  let ?ss = "map (\<lambda>b. byteToSample (uint b)) (?hdr @ [1, 2, 3])"
  have magic: "readMagic ?ss = MAGIC_FULL"
    using readMagic_encoded
      [of MAGIC_FULL "int32ToBytes 1 @ int32ToBytes 1 @ int32ToBytes 4 @ [1, 2, 3]"]
    by (simp add: MAGIC_FULL_def)
  have len: "length ?ss = 19" by (simp add: length_int32ToBytes)
  have payload: "decodedBytes ?ss 16 3 = [1, 2, 3]"
    by (subst decodedBytes_encoded) (simp_all add: length_int32ToBytes)
  have hdr: "decodedBytes ?ss 0 16 = ?hdr"
    by (subst decodedBytes_encoded) (simp_all add: length_int32ToBytes)
  have size: "bytesToInt32 ?hdr 12 = 4"
    using bytesToInt32_int32ToBytes_id
      [of "int32ToBytes MAGIC_FULL @ int32ToBytes 1 @ int32ToBytes 1" 12 4 "[]"]
    by (simp add: length_int32ToBytes)
  have dec: "decompressData storedBrowser (decodedBytes ?ss 16 (length ?ss - 16)) = Some [1, 2, 3]"
    unfolding len using payload by (simp add: storedBrowser_def)
  have ne: "int (length [1, 2, 3 :: u8]) \<noteq> bytesToInt32 (decodedBytes ?ss 0 16) 12"
    unfolding hdr size by simp
  have "audioToImage storedBrowser mismatchedWav = Inl SizeMismatch"
    using size_mismatch_detected [OF mismatched_samples magic _ dec ne] len by simp
  then show ?thesis
    using mismatched_samples magic len payload ne by (simp add: storedBrowser_def)
qed

section \<open>Samples past the end of the stream\<close>

text \<open>
  A loop that decodes \<open>n\<close> bytes from \<open>start\<close> gives the bytes of the samples that
  exist, followed by a 0 for each sample that does not.
\<close>

lemma decodedBytes_zero_fill:
  "decodedBytes samples start n
     = map (\<lambda>s. word_of_int (sampleToByte s)) (take n (drop start samples))
       @ replicate (n - (length samples - start)) 0"
proof (rule nth_equalityI)
  show "length (decodedBytes samples start n)
      = length (map (\<lambda>s. word_of_int (sampleToByte s) :: u8) (take n (drop start samples))
                @ replicate (n - (length samples - start)) 0)"
    by (simp add: length_decodedBytes)
next
  fix i
  assume "i < length (decodedBytes samples start n)"
  then have i: "i < n" by (simp add: length_decodedBytes)
  show "decodedBytes samples start n ! i
      = (map (\<lambda>s. word_of_int (sampleToByte s)) (take n (drop start samples))
         @ replicate (n - (length samples - start)) 0) ! i"
  proof (cases "start + i < length samples")
    case True
    then have "i < length samples - start" by linarith
    then show ?thesis
      using True i by (simp add: nth_decodedBytes sampleToByteAt_def nth_append add.commute)
  next
    case False
    then have "\<not> i < length samples - start" by linarith
    then show ?thesis
      using False i by (simp add: nth_decodedBytes sampleToByteAt_def nth_append)
  qed
qed

lemma byteAt_decodedBytes_missing:
  assumes "length samples \<le> j"
  shows "byteAt (decodedBytes samples 0 n) j = 0"
  using assms by (simp add: byteAt_def length_decodedBytes nth_decodedBytes sampleToByteAt_def)

lemma bytesToInt32_missing:
  assumes "length samples \<le> k"
  shows "bytesToInt32 (decodedBytes samples 0 n) k = 0"
  using assms by (simp add: bytesToInt32_def byteAt_decodedBytes_missing)

section \<open>A RIFF file without a data chunk\<close>

lemma findDataChunk_no_data:
  "\<not> hasDataChunk buf offset \<Longrightarrow>
   \<exists>off'. findDataChunk buf offset = Inr off' \<and> length buf \<le> off' + 8"
proof (induction buf offset rule: findDataChunk.induct)
  case (1 buf offset)
  show ?case
  proof (cases "int offset < int (length buf) - 8")
    case False
    then show ?thesis by (subst findDataChunk.simps) simp
  next
    case True
    then have inb: "offset + 8 \<le> length buf" by simp
    then have tag: "getTag buf offset = Inr (take 4 (drop offset buf))"
      by (simp add: getTag_def)
    from inb obtain chunkSize where size: "getUint32 buf (offset + 4) = Inr chunkSize"
      by (simp add: getUint32_def)
    from "1.prems" inb have ne: "take 4 (drop offset buf) \<noteq> tag_data"
      by (subst (asm) hasDataChunk.simps) (simp split: if_splits)
    from "1.prems" inb ne size have "\<not> hasDataChunk buf (offset + 8 + chunkSize)"
      by (subst (asm) hasDataChunk.simps) simp
    with "1.IH" [OF True tag size ne]
    obtain off' where "findDataChunk buf (offset + 8 + chunkSize) = Inr off'"
      and "length buf \<le> off' + 8" by blast
    then show ?thesis
      using True tag size ne by (subst findDataChunk.simps) simp
  qed
qed

lemma length_int16Elements: "length (int16Elements buf) = length buf div 2"
  by (induction buf rule: int16Elements.induct) (simp_all add: Let_def)

lemma decodeSamples_few:
  fixes B :: "'f browser"
  assumes "length samples \<le> 4"
  shows "decodeSamples B samples = Inl RangeError
       \<or> decodeSamples B samples = Inl DimensionOutOfRange
       \<or> decodeSamples B samples
           = (case getImageDimensions B [] of
                None \<Rightarrow> Inl DecodeFailure
              | Some (w, h) \<Rightarrow> Inr \<lparr>imageBlob = Jpeg [], width = w, height = h\<rparr>)"
proof -
  have z8: "bytesToInt32 (decodedBytes samples 0 8) 4 = 0"
    using assms by (rule bytesToInt32_missing)
  have z12: "bytesToInt32 (decodedBytes samples 0 12) 4 = 0"
    using assms by (rule bytesToInt32_missing)
  have jpeg: "decodeJpeg B samples
      = (case getImageDimensions B [] of
           None \<Rightarrow> Inl DecodeFailure
         | Some (w, h) \<Rightarrow> Inr \<lparr>imageBlob = Jpeg [], width = w, height = h\<rparr>)"
    unfolding decodeJpeg_def Let_def z8 by (simp add: decodedBytes_def split: option.splits)
  have full: "decodeFull B samples = Inl RangeError"
    using assms by (simp add: decodeFull_def Let_def)
  have legacy: "handleLegacyFormat samples = Inl DimensionOutOfRange"
    unfolding handleLegacyFormat_def Let_def z12 by simp
  show ?thesis
    unfolding decodeSamples_def Let_def using jpeg full legacy by simp
qed


lemma magics_differ: "MAGIC_FULL \<noteq> MAGIC_JPEG"
  by (simp add: MAGIC_FULL_def MAGIC_JPEG_def)

lemma riffOnly_scan: "findDataChunk riffOnly 12 = Inr 12"
  by (subst findDataChunk.simps)
     (simp add: riffOnly_def tag_RIFF_def tag_WAVE_def length_int32ToBytes)

lemma riffOnly_samples: "readSamples riffOnly = Inr []"
proof -
  have t: "getTag riffOnly 0 = Inr tag_RIFF"
    by (simp add: riffOnly_def getTag_def tag_RIFF_def tag_WAVE_def length_int32ToBytes)
  have d: "drop 12 riffOnly = []"
    by (simp add: riffOnly_def tag_RIFF_def tag_WAVE_def length_int32ToBytes)
  show ?thesis
    unfolding readSamples_def t riffOnly_scan by (simp add: d newInt16Array_def)
qed

lemma decodeSamples_empty: "decodeSamples B [] = Inl DimensionOutOfRange"
proof -
  have m: "readMagic [] = 0"
    unfolding readMagic_def by (rule bytesToInt32_missing) simp
  have w: "bytesToInt32 (decodedBytes [] 0 12) 0 = 0"
    by (rule bytesToInt32_missing) simp
  show ?thesis
    unfolding decodeSamples_def Let_def m handleLegacyFormat_def w
    by (simp add: MAGIC_FULL_def MAGIC_JPEG_def)
qed

text \<open>
  Claim C5, as stated, fails: the 12-byte RIFF preamble has the RIFF tag and no data
  chunk, and \<open>audioToImage\<close> does not stop at the missing chunk. It goes on with an empty
  sample stream, takes it for a legacy file and fails on the width 0 it reads there.
\<close>

theorem missing_data_chunk_counterexample:
  "getTag riffOnly 0 = Inr tag_RIFF
   \<and> \<not> hasDataChunk riffOnly 12
   \<and> audioToImage storedBrowser riffOnly = Inl DimensionOutOfRange"
proof -
  have "getTag riffOnly 0 = Inr tag_RIFF"
    by (simp add: riffOnly_def getTag_def tag_RIFF_def tag_WAVE_def length_int32ToBytes)
  moreover have "\<not> hasDataChunk riffOnly 12"
    by (subst hasDataChunk.simps)
       (simp add: riffOnly_def tag_RIFF_def tag_WAVE_def length_int32ToBytes)
  moreover have "audioToImage storedBrowser riffOnly = Inl DimensionOutOfRange"
    by (simp add: audioToImage_def riffOnly_samples decodeSamples_empty)
  ultimately show ?thesis by simp
qed

text \<open>
  Claim C5, amended. The source has no failure for a missing data chunk. For every
  buffer with the RIFF tag and no data chunk, the loop ends within 8 bytes of the end
  of the buffer and decoding goes on with the at most 4 samples left there: the outcome
  is never \<open>MissingPayloadChunk\<close> or \<open>MalformedContainer\<close>; it is a \<open>RangeError\<close> (an odd
  number of bytes left, or the magic "FULL" with fewer than 16 samples),
  \<open>DimensionOutOfRange\<close> (legacy: the missing height reads 0), or, when the samples
  spell the magic "JPEG", what the browser's image probe makes of an empty JPEG stream.
\<close>

theorem missing_data_chunk_falls_through:
  fixes B :: "'f browser"
  assumes "getTag file 0 = Inr tag_RIFF" and "\<not> hasDataChunk file 12"
  shows "audioToImage B file \<noteq> Inl MissingPayloadChunk
       \<and> audioToImage B file \<noteq> Inl MalformedContainer
       \<and> (audioToImage B file = Inl RangeError
          \<or> audioToImage B file = Inl DimensionOutOfRange
          \<or> audioToImage B file
              = (case getImageDimensions B [] of
                   None \<Rightarrow> Inl DecodeFailure
                 | Some (w, h) \<Rightarrow> Inr \<lparr>imageBlob = Jpeg [], width = w, height = h\<rparr>))"
proof -
  from assms(2) obtain off' where scan: "findDataChunk file 12 = Inr off'"
    and rest: "length file \<le> off' + 8"
    using findDataChunk_no_data by blast
  have rs: "readSamples file = newInt16Array (drop off' file)"
    by (simp add: readSamples_def assms(1) scan)
  have three: "audioToImage B file = Inl RangeError
          \<or> audioToImage B file = Inl DimensionOutOfRange
          \<or> audioToImage B file
              = (case getImageDimensions B [] of
                   None \<Rightarrow> Inl DecodeFailure
                 | Some (w, h) \<Rightarrow> Inr \<lparr>imageBlob = Jpeg [], width = w, height = h\<rparr>)"
  proof (cases "even (length (drop off' file))")
    case False
    then show ?thesis by (simp add: audioToImage_def rs newInt16Array_def)
  next
    case True
    have "length (int16Elements (drop off' file)) \<le> 4"
      using rest by (simp add: length_int16Elements)
    from decodeSamples_few [OF this, of B] show ?thesis
      using True by (simp add: audioToImage_def rs newInt16Array_def)
  qed
  then show ?thesis by (auto split: option.splits)
qed

theorem missing_data_chunk_falls_through_witness:
  "getTag riffOnly 0 = Inr tag_RIFF
   \<and> \<not> hasDataChunk riffOnly 12
   \<and> audioToImage storedBrowser riffOnly \<noteq> Inl MissingPayloadChunk
   \<and> audioToImage storedBrowser riffOnly \<noteq> Inl MalformedContainer"
proof -
  have t: "getTag riffOnly 0 = Inr tag_RIFF"
    by (simp add: riffOnly_def getTag_def tag_RIFF_def tag_WAVE_def length_int32ToBytes)
  have n: "\<not> hasDataChunk riffOnly 12"
    by (subst hasDataChunk.simps)
       (simp add: riffOnly_def tag_RIFF_def tag_WAVE_def length_int32ToBytes)
  from missing_data_chunk_falls_through [OF t n, of storedBrowser] t n
  show ?thesis by simp
qed

section \<open>The legacy format\<close>

text \<open>
  \<open>handleLegacyFormat\<close> checks the declared dimensions: a width or height outside
  \<open>1..32768\<close> fails with "Invalid image dimensions". A width of 0 or 32769, or a height
  whose 32 bits would be negative as a signed number (it is read unsigned, so it is
  above 32768), is rejected here.
\<close>

lemma handleLegacyFormat_dimensions:
  assumes "w = bytesToInt32 (decodedBytes samples 0 12) 0"
    and "h = bytesToInt32 (decodedBytes samples 0 12) 4"
    and "w \<le> 0 \<or> w > 32768 \<or> h \<le> 0 \<or> h > 32768"
  shows "handleLegacyFormat samples = Inl DimensionOutOfRange"
  using assms by (simp add: handleLegacyFormat_def Let_def)

lemma handleLegacyFormat_image:
  assumes "w = bytesToInt32 (decodedBytes samples 0 12) 0"
    and "h = bytesToInt32 (decodedBytes samples 0 12) 4"
    and "4 = bytesToInt32 (decodedBytes samples 0 12) 8"
    and "0 < w" and "w \<le> 32768" and "0 < h" and "h \<le> 32768"
  shows "handleLegacyFormat samples
     = Inr \<lparr>imageBlob = Png (map (\<lambda>s. word_of_int (sampleToByte s))
                                (take (nat (w * h * 4)) (drop 12 samples))
                              @ replicate (nat (w * h * 4) - (length samples - 12)) 0),
            width = w, height = h\<rparr>"
proof -
  have dims: "\<not> (w \<le> 0 \<or> w > 32768 \<or> h \<le> 0 \<or> h > 32768)" using assms(4-7) by simp
  have "w * h \<le> 32768 * 32768"
    by (rule mult_mono) (use assms(4-7) in simp_all)
  then have size: "\<not> w * h * 4 > 2 ^ 53 - 1" by simp
  have "0 \<le> w * h" using assms(4,6) by simp
  then have "int (length (decodedBytes samples 12 (nat (w * h * 4)))) = 4 * w * h"
    by (simp add: length_decodedBytes)
  then have ok: "newImageData (decodedBytes samples 12 (nat (w * h * 4))) w h = Inr ()"
    using assms(4,6) by (intro newImageData_rgba)
  show ?thesis
    unfolding handleLegacyFormat_def Let_def assms(1-3) [symmetric]
    using dims size ok by (simp add: decodedBytes_zero_fill)
qed

lemma truncatedLegacy_samples:
  "readSamples truncatedLegacyWav
     = Inr (map (\<lambda>b. byteToSample (uint b))
             ((int32ToBytes 1 @ int32ToBytes 1 @ int32ToBytes 4) @ [255, 0]))"
  unfolding truncatedLegacyWav_def by (rule readSamples_bytesToWav) simp

lemma truncatedLegacy_literal:
  "map (\<lambda>b. byteToSample (uint b))
      ((int32ToBytes 1 @ int32ToBytes 1 @ int32ToBytes 4) @ [255, 0 :: u8])
   = [- 32512, - 32768, - 32768, - 32768, - 32512, - 32768, - 32768, - 32768,
      - 31744, - 32768, - 32768, - 32768, 32512, - 32768]"
  by (simp add: int32ToBytes_def byteToSample_def)

lemma truncatedLegacy_fields:
  "readMagic (map (\<lambda>b. byteToSample (uint b))
      ((int32ToBytes 1 @ int32ToBytes 1 @ int32ToBytes 4) @ [255, 0])) = 1"
  "bytesToInt32 (decodedBytes (map (\<lambda>b. byteToSample (uint b))
      ((int32ToBytes 1 @ int32ToBytes 1 @ int32ToBytes 4) @ [255, 0])) 0 12) 0 = 1"
  "bytesToInt32 (decodedBytes (map (\<lambda>b. byteToSample (uint b))
      ((int32ToBytes 1 @ int32ToBytes 1 @ int32ToBytes 4) @ [255, 0])) 0 12) 4 = 1"
  "bytesToInt32 (decodedBytes (map (\<lambda>b. byteToSample (uint b))
      ((int32ToBytes 1 @ int32ToBytes 1 @ int32ToBytes 4) @ [255, 0])) 0 12) 8 = 4"
proof -
  let ?hdr = "int32ToBytes 1 @ int32ToBytes 1 @ int32ToBytes 4"
  let ?ss = "map (\<lambda>b. byteToSample (uint b)) (?hdr @ [255, 0])"
  show "readMagic ?ss = 1"
    using readMagic_encoded [of 1 "int32ToBytes 1 @ int32ToBytes 4 @ [255, 0]"] by simp
  have hdr: "decodedBytes ?ss 0 12 = ?hdr"
    by (subst decodedBytes_encoded) (simp_all add: length_int32ToBytes)
  show "bytesToInt32 (decodedBytes ?ss 0 12) 0 = 1"
    unfolding hdr
    using bytesToInt32_int32ToBytes_id [of "[]" 0 1 "int32ToBytes 1 @ int32ToBytes 4"] by simp
  show "bytesToInt32 (decodedBytes ?ss 0 12) 4 = 1"
    unfolding hdr
    using bytesToInt32_int32ToBytes_id [of "int32ToBytes 1" 4 1 "int32ToBytes 4"]
    by (simp add: length_int32ToBytes)
  show "bytesToInt32 (decodedBytes ?ss 0 12) 8 = 4"
    unfolding hdr
    using bytesToInt32_int32ToBytes_id [of "int32ToBytes 1 @ int32ToBytes 1" 8 4 "[]"]
    by (simp add: length_int32ToBytes)
qed

text \<open>
  Claim C4, as stated, fails: a legacy container that declares a 1 by 1 image of 4
  channels and holds only 2 of the 4 pixel samples is decoded without an error, into an
  image whose last two bytes were never in the file.
\<close>

theorem truncated_legacy_counterexample:
  "readSamples truncatedLegacyWav
     = Inr [- 32512, - 32768, - 32768, - 32768, - 32512, - 32768, - 32768, - 32768,
            - 31744, - 32768, - 32768, - 32768, 32512, - 32768]
   \<and> audioToImage storedBrowser truncatedLegacyWav
     = Inr \<lparr>imageBlob = Png [255, 0, 0, 0], width = 1, height = 1\<rparr>"
proof -
  let ?ss = "[- 32512, - 32768, - 32768, - 32768, - 32512, - 32768, - 32768, - 32768,
            - 31744, - 32768, - 32768, - 32768, 32512, - 32768] :: int list"
  have rs: "readSamples truncatedLegacyWav = Inr ?ss"
    using truncatedLegacy_samples unfolding truncatedLegacy_literal .
  have f: "readMagic ?ss = 1" "bytesToInt32 (decodedBytes ?ss 0 12) 0 = 1"
    "bytesToInt32 (decodedBytes ?ss 0 12) 4 = 1" "bytesToInt32 (decodedBytes ?ss 0 12) 8 = 4"
    using truncatedLegacy_fields unfolding truncatedLegacy_literal by simp_all
  have "handleLegacyFormat ?ss
     = Inr \<lparr>imageBlob = Png (map (\<lambda>s. word_of_int (sampleToByte s))
                                (take (nat (1 * 1 * 4)) (drop 12 ?ss))
                              @ replicate (nat (1 * 1 * 4) - (length ?ss - 12)) 0),
            width = 1, height = 1\<rparr>"
    by (rule handleLegacyFormat_image) (simp_all add: f)
  then have "handleLegacyFormat ?ss
     = Inr \<lparr>imageBlob = Png [255, 0, 0, 0], width = 1, height = 1\<rparr>"
    by (simp add: sampleToByte_eq numeral_2_eq_2)
  then have "audioToImage storedBrowser truncatedLegacyWav
     = Inr \<lparr>imageBlob = Png [255, 0, 0, 0], width = 1, height = 1\<rparr>"
    unfolding audioToImage_def rs
    by (simp add: decodeSamples_def Let_def f(1) MAGIC_FULL_def MAGIC_JPEG_def)
  with rs show ?thesis by simp
qed

text \<open>
  Claim C4, amended. For every legacy container (a RIFF file whose samples start with
  neither magic) that declares 4 channels and a width and height in \<open>1..32768\<close>,
  \<open>audioToImage\<close> returns an image of the declared width and height with exactly
  \<open>width * height * 4\<close> bytes, also when the sample stream is truncated: the bytes are
  those of the samples present, and each byte whose sample is missing is 0.
\<close>

theorem legacy_truncation_zero_filled:
  fixes B :: "'f browser"
  assumes "readSamples file = Inr samples"
    and "readMagic samples \<noteq> MAGIC_JPEG" and "readMagic samples \<noteq> MAGIC_FULL"
    and "w = bytesToInt32 (decodedBytes samples 0 12) 0"
    and "h = bytesToInt32 (decodedBytes samples 0 12) 4"
    and "4 = bytesToInt32 (decodedBytes samples 0 12) 8"
    and "0 < w" and "w \<le> 32768" and "0 < h" and "h \<le> 32768"
  shows "audioToImage B file
     = Inr \<lparr>imageBlob = Png (map (\<lambda>s. word_of_int (sampleToByte s))
                                (take (nat (w * h * 4)) (drop 12 samples))
                              @ replicate (nat (w * h * 4) - (length samples - 12)) 0),
            width = w, height = h\<rparr>"
proof -
  have "decodeSamples B samples = handleLegacyFormat samples"
    using assms(2,3) by (simp add: decodeSamples_def Let_def)
  then show ?thesis
    unfolding audioToImage_def assms(1)
    using handleLegacyFormat_image [OF assms(4-10)] by simp
qed

theorem legacy_truncation_zero_filled_witness:
  "readSamples truncatedLegacyWav
     = Inr [- 32512, - 32768, - 32768, - 32768, - 32512, - 32768, - 32768, - 32768,
            - 31744, - 32768, - 32768, - 32768, 32512, - 32768]
   \<and> readMagic [- 32512, - 32768, - 32768, - 32768, - 32512, - 32768, - 32768, - 32768,
            - 31744, - 32768, - 32768, - 32768, 32512, - 32768] \<noteq> MAGIC_JPEG
   \<and> readMagic [- 32512, - 32768, - 32768, - 32768, - 32512, - 32768, - 32768, - 32768,
            - 31744, - 32768, - 32768, - 32768, 32512, - 32768] \<noteq> MAGIC_FULL
   \<and> 1 = bytesToInt32 (decodedBytes
            [- 32512, - 32768, - 32768, - 32768, - 32512, - 32768, - 32768, - 32768,
             - 31744, - 32768, - 32768, - 32768, 32512, - 32768] 0 12) 0
   \<and> 1 = bytesToInt32 (decodedBytes
            [- 32512, - 32768, - 32768, - 32768, - 32512, - 32768, - 32768, - 32768,
             - 31744, - 32768, - 32768, - 32768, 32512, - 32768] 0 12) 4
   \<and> 4 = bytesToInt32 (decodedBytes
            [- 32512, - 32768, - 32768, - 32768, - 32512, - 32768, - 32768, - 32768,
             - 31744, - 32768, - 32768, - 32768, 32512, - 32768] 0 12) 8
   \<and> (0::int) < 1 \<and> (1::int) \<le> 32768
   \<and> audioToImage storedBrowser truncatedLegacyWav
     = Inr \<lparr>imageBlob = Png (map (\<lambda>s. word_of_int (sampleToByte s))
                (take (nat (1 * 1 * 4))
                  (drop 12 [- 32512, - 32768, - 32768, - 32768, - 32512, - 32768, - 32768,
                            - 32768, - 31744, - 32768, - 32768, - 32768, 32512, - 32768]))
                @ replicate (nat (1 * 1 * 4)
                   - (length [- 32512, - 32768, - 32768, - 32768, - 32512, - 32768, - 32768,
                              - 32768, - 31744, - 32768, - 32768, - 32768, 32512, - 32768 :: int]
                      - 12)) 0),
            width = 1, height = 1\<rparr>"
proof -
  let ?ss = "[- 32512, - 32768, - 32768, - 32768, - 32512, - 32768, - 32768, - 32768,
            - 31744, - 32768, - 32768, - 32768, 32512, - 32768] :: int list"
  have rs: "readSamples truncatedLegacyWav = Inr ?ss"
    using truncatedLegacy_samples unfolding truncatedLegacy_literal .
  have f: "readMagic ?ss = 1" "bytesToInt32 (decodedBytes ?ss 0 12) 0 = 1"
    "bytesToInt32 (decodedBytes ?ss 0 12) 4 = 1" "bytesToInt32 (decodedBytes ?ss 0 12) 8 = 4"
    using truncatedLegacy_fields unfolding truncatedLegacy_literal by simp_all
  have m: "readMagic ?ss \<noteq> MAGIC_JPEG" "readMagic ?ss \<noteq> MAGIC_FULL"
    by (simp_all add: f(1) MAGIC_JPEG_def MAGIC_FULL_def)
  have "audioToImage storedBrowser truncatedLegacyWav
     = Inr \<lparr>imageBlob = Png (map (\<lambda>s. word_of_int (sampleToByte s))
                (take (nat (1 * 1 * 4)) (drop 12 ?ss))
                @ replicate (nat (1 * 1 * 4) - (length ?ss - 12)) 0),
            width = 1, height = 1\<rparr>"
    by (rule legacy_truncation_zero_filled [OF rs m]) (simp_all add: f)
  with rs m f show ?thesis by simp
qed

section \<open>Full quality: the declared dimensions\<close>

lemma zeroWidth_samples:
  "readSamples zeroWidthWav
     = Inr (map (\<lambda>b. byteToSample (uint b))
             ((int32ToBytes MAGIC_FULL @ int32ToBytes 0 @ int32ToBytes 1 @ int32ToBytes 4)
              @ [9, 9, 9, 9]))"
  unfolding zeroWidthWav_def by (rule readSamples_bytesToWav) simp

lemma wide_samples:
  "readSamples wideWav
     = Inr (map (\<lambda>b. byteToSample (uint b))
             ((int32ToBytes MAGIC_FULL @ int32ToBytes 32769 @ int32ToBytes 1
               @ int32ToBytes 131076) @ replicate 131076 0))"
  unfolding wideWav_def by (rule readSamples_bytesToWav) (simp add: int32ToBytes_def)

lemma decodeSamples_full_encoded:
  fixes B :: "'f browser"
  assumes "0 \<le> w" "w < 2 ^ 32" "0 \<le> h" "h < 2 ^ 32" "0 \<le> n" "n < 2 ^ 32"
  shows "decodeSamples B (map (\<lambda>b. byteToSample (uint b))
            ((int32ToBytes MAGIC_FULL @ int32ToBytes w @ int32ToBytes h @ int32ToBytes n)
             @ payload))
         = (case decompressData B payload of
              None \<Rightarrow> Inl DecodeFailure
            | Some rawPixelData \<Rightarrow>
                if int (length rawPixelData) \<noteq> n then Inl SizeMismatch
                else
                  (case newImageData rawPixelData w h of
                     Inl e \<Rightarrow> Inl e
                   | Inr imageData \<Rightarrow>
                       Inr \<lparr>imageBlob = Png rawPixelData, width = w, height = h\<rparr>))"
proof -
  let ?ss = "map (\<lambda>b. byteToSample (uint b))
            ((int32ToBytes MAGIC_FULL @ int32ToBytes w @ int32ToBytes h @ int32ToBytes n)
             @ payload)"
  have "readMagic ?ss = take_bit 32 MAGIC_FULL"
    using readMagic_encoded
      [of MAGIC_FULL "int32ToBytes w @ int32ToBytes h @ int32ToBytes n @ payload"]
    by (simp only: append_assoc)
  then have magic: "readMagic ?ss = MAGIC_FULL" by (simp add: MAGIC_FULL_def)
  show ?thesis
    unfolding decodeSamples_def Let_def magic decodeFull_encoded [OF assms]
    using magics_differ by simp
qed

text \<open>
  Claim C3 asks for \<open>DimensionOutOfRange\<close> on both paths. The legacy path checks the
  dimensions (\<open>handleLegacyFormat_dimensions\<close>); the full-quality path does not. A
  container that declares a width of 0, with a payload of the declared size, passes the
  size check and fails only in the browser's \<open>ImageData\<close> constructor, with its
  \<open>IndexSizeError\<close>; a container that declares 32769 by 1 pixels and carries them is
  decoded into an image 32769 pixels wide.
\<close>

theorem full_path_skips_dimension_check:
  "audioToImage storedBrowser zeroWidthWav = Inl IndexSizeError
   \<and> audioToImage storedBrowser wideWav
       = Inr \<lparr>imageBlob = Png (replicate 131076 0), width = 32769, height = 1\<rparr>"
proof -
  have "decodeSamples storedBrowser (map (\<lambda>b. byteToSample (uint b))
             ((int32ToBytes MAGIC_FULL @ int32ToBytes 0 @ int32ToBytes 1 @ int32ToBytes 4)
              @ [9, 9, 9, 9])) = Inl IndexSizeError"
    by (subst decodeSamples_full_encoded)
       (simp_all add: storedBrowser_def newImageData_def)
  then have zero: "audioToImage storedBrowser zeroWidthWav = Inl IndexSizeError"
    unfolding audioToImage_def zeroWidth_samples by simp
  have ok: "newImageData (replicate 131076 0) 32769 1 = Inr ()"
    by (rule newImageData_rgba) simp_all
  have "decodeSamples storedBrowser (map (\<lambda>b. byteToSample (uint b))
             ((int32ToBytes MAGIC_FULL @ int32ToBytes 32769 @ int32ToBytes 1
               @ int32ToBytes 131076) @ replicate 131076 0))
        = Inr \<lparr>imageBlob = Png (replicate 131076 0), width = 32769, height = 1\<rparr>"
    by (subst decodeSamples_full_encoded) (simp_all add: storedBrowser_def ok)
  then have wide: "audioToImage storedBrowser wideWav
       = Inr \<lparr>imageBlob = Png (replicate 131076 0), width = 32769, height = 1\<rparr>"
    unfolding audioToImage_def wide_samples by simp
  from zero wide show ?thesis by simp
qed

section \<open>The compression ratio\<close>

text \<open>
  Claim C8. An encode call that succeeds reports \<open>compressionRatio = originalSize /
  payload.length\<close>, where in compressed mode the payload is the JPEG stream and
  \<open>originalSize\<close> the size of the input file, and in full mode the payload is the
  deflated pixels and \<open>originalSize\<close> the number of raw pixel bytes. \<open>handleProcess\<close>
  puts the ratio in the result info exactly when it is greater than 1 and leaves it
  out otherwise.
\<close>

theorem compression_ratio_reported:
  fixes B :: "'f browser"
  assumes "(quality options = compressed
              \<and> imageToJpegBlob B file (case jpegQuality options of None \<Rightarrow> 7 / 10 | Some x \<Rightarrow> x)
                  = Some payload
              \<and> originalSize = file_size B file)
         \<or> (quality options = full
              \<and> extractRawPixelData B file = Some rawData
              \<and> payload = compressData B (raw_data rawData)
              \<and> originalSize = length (raw_data rawData))"
  shows "\<exists>res. imageToAudio B file options = Inr res
           \<and> compressionRatio res = js_div originalSize (length payload)
           \<and> handleProcess_compressionRatio res
               = (if js_gt1 (compressionRatio res) then Some (compressionRatio res) else None)"
proof -
  have shown: "handleProcess_compressionRatio res
      = (if js_gt1 (compressionRatio res) then Some (compressionRatio res) else None)" for res
    by (cases "compressionRatio res") (simp_all add: handleProcess_compressionRatio_def)
  from assms have "\<exists>hdr. prepareEncoding B file options = Inr (payload, hdr, originalSize)"
    by (auto simp add: prepareEncoding_def Let_def)
  then obtain hdr where "prepareEncoding B file options = Inr (payload, hdr, originalSize)" ..
  then show ?thesis using shown by (simp add: imageToAudio_def Let_def)
qed

theorem compression_ratio_reported_witness:
  "((quality fullOptions = compressed
       \<and> imageToJpegBlob storedBrowser tinyImage
            (case jpegQuality fullOptions of None \<Rightarrow> 7 / 10 | Some x \<Rightarrow> x)
           = Some (raw_data tinyImage)
       \<and> length (raw_data tinyImage) = file_size storedBrowser tinyImage)
     \<or> (quality fullOptions = full
       \<and> extractRawPixelData storedBrowser tinyImage = Some tinyImage
       \<and> raw_data tinyImage = compressData storedBrowser (raw_data tinyImage)
       \<and> length (raw_data tinyImage) = length (raw_data tinyImage)))
   \<and> (\<exists>res. imageToAudio storedBrowser tinyImage fullOptions = Inr res
           \<and> compressionRatio res
               = js_div (length (raw_data tinyImage)) (length (raw_data tinyImage))
           \<and> handleProcess_compressionRatio res
               = (if js_gt1 (compressionRatio res) then Some (compressionRatio res) else None))"
  using compression_ratio_reported
    [of fullOptions storedBrowser tinyImage "raw_data tinyImage" "length (raw_data tinyImage)"
        tinyImage]
  by (simp add: storedBrowser_def fullOptions_def)

end
